theory Spec2Isabelle
  imports Complex_Main
begin

section \<open>The notebook's globals\<close>

text \<open>
  The notebook \<^verbatim>\<open>nqs_time_evolution.ipynb\<close> keeps its physical parameters in module
  globals that later cells and the helper functions read: \<^verbatim>\<open>L = 8\<close>, \<^verbatim>\<open>width = 60\<close>,
  \<^verbatim>\<open>g = 0.3\<close>, \<^verbatim>\<open>h = 0.25\<close>, \<^verbatim>\<open>tmax = 2.0\<close>, and the first value \<^verbatim>\<open>dt = 1e-3\<close> of the
  step size (\<open>dt0\<close>; the loop overwrites \<^verbatim>\<open>dt\<close>). The globals are a record that every
  function reading them takes as its first argument. Floating-point numbers are modelled
  by the reals, and a decimal literal by the rational it denotes.
\<close>

record globals =
  L :: nat
  width :: nat
  g :: real
  h :: real
  tmax :: real
  dt0 :: real

definition notebook :: globals where
  "notebook = \<lparr>L = 8, width = 60, g = 3 / 10, h = 1 / 4, tmax = 2, dt0 = 1 / 10 ^ 3\<rparr>"

section \<open>Operators\<close>

text \<open>
  \<^verbatim>\<open>BranchFreeOperator()\<close> is an empty sum of operator strings; \<^verbatim>\<open>add\<close> appends one;
  \<^verbatim>\<open>scal_opstr(c, ops)\<close> is the string \<^verbatim>\<open>ops\<close> with prefactor \<^verbatim>\<open>c\<close>; \<^verbatim>\<open>Sx(l)\<close> and \<^verbatim>\<open>Sz(l)\<close>
  are the Pauli operators on site \<^verbatim>\<open>l\<close>.
\<close>

datatype site_op = Sx nat | Sz nat

type_synonym opstr = "real \<times> site_op list"
type_synonym operator = "opstr list"

definition BranchFreeOperator :: operator where
  "BranchFreeOperator = []"

definition scal_opstr :: "real \<Rightarrow> site_op list \<Rightarrow> opstr" where
  "scal_opstr c ops = (c, ops)"

definition add :: "operator \<Rightarrow> opstr \<Rightarrow> operator" where
  "add O1 x = O1 @ [x]"

text \<open>
  \<^verbatim>\<open>
  X = BranchFreeOperator()
  for l in range(L):
      X.add( scal_opstr(1. / L, (Sx(l), )) )
  \<close>
\<close>

definition X_operator :: "globals \<Rightarrow> operator" where
  "X_operator G =
     foldl (\<lambda>X1 l. add X1 (scal_opstr (1 / real (L G)) [Sx l])) BranchFreeOperator [0..<L G]"

text \<open>
  \<^verbatim>\<open>
  H = BranchFreeOperator()
  for l in range(L):
      H.add( scal_opstr(-1.0, (Sx(l), Sx((l+1)%L))) )
      H.add( scal_opstr(-h, (Sx(l),)) )
      H.add( scal_opstr(-g, (Sz(l),)) )
  \<close>
\<close>

definition H_operator :: "globals \<Rightarrow> operator" where
  "H_operator G =
     foldl (\<lambda>H1 l.
        add (add (add H1 (scal_opstr (- 1) [Sx l, Sx ((l + 1) mod L G)]))
                 (scal_opstr (- h G) [Sx l]))
            (scal_opstr (- g G) [Sz l]))
       BranchFreeOperator [0..<L G]"


text \<open>
  The dictionary of observables, \<^verbatim>\<open>observables = {"X": X}\<close> followed by
  \<^verbatim>\<open>observables["energy"] = H\<close>, in insertion order.
\<close>

definition observables_dict :: "globals \<Rightarrow> (string \<times> operator) list" where
  "observables_dict G = [(''X'', X_operator G), (''energy'', H_operator G)]"

subsection \<open>Matrix elements and expectation values\<close>

text \<open>
  A configuration is a bit string. \<^verbatim>\<open>get_s_primes\<close> gives, for every operator string, the
  configuration it connects to and the matrix element: \<open>\<sigma>\<^sup>x\<close> flips the bit of its site
  with matrix element 1, \<open>\<sigma>\<^sup>z\<close> keeps the configuration with matrix element \<open>\<plusminus>1\<close>. The
  factors of a string act from the right.
\<close>

type_synonym config = "nat list"

fun apply_site :: "site_op \<Rightarrow> config \<Rightarrow> config \<times> real" where
  "apply_site (Sx l) s = ((if l < length s then s[l := 1 - s ! l] else s), 1)"
| "apply_site (Sz l) s = (s, if l < length s \<and> s ! l = 0 then - 1 else 1)"

fun apply_ops :: "site_op list \<Rightarrow> config \<Rightarrow> config \<times> real" where
  "apply_ops [] s = (s, 1)"
| "apply_ops (x # xs) s =
     (case apply_ops xs s of (s1, m1) \<Rightarrow> (case apply_site x s1 of (s2, m2) \<Rightarrow> (s2, m2 * m1)))"

definition get_s_primes :: "operator \<Rightarrow> config \<Rightarrow> (config \<times> real) list" where
  "get_s_primes O1 s = map (\<lambda>(c, ops). case apply_ops ops s of (s1, m) \<Rightarrow> (s1, c * m)) O1"

text \<open>
  The wave function is given by its logarithmic amplitude, as the notebook's \<^verbatim>\<open>psi(s)\<close>
  returns it. The notebook states the expectation value that \<^verbatim>\<open>measure\<close> estimates:
  \<open>\<Sum>\<^sub>s |\<psi>(s)|\<^sup>2 / \<langle>\<psi>|\<psi>\<rangle> \<Sum>\<^sub>s\<^sub>' O\<^sub>s\<^sub>,\<^sub>s\<^sub>' \<psi>(s') / \<psi>(s)\<close>.
\<close>

definition O_loc :: "(config \<Rightarrow> complex) \<Rightarrow> operator \<Rightarrow> config \<Rightarrow> complex" where
  "O_loc logpsi O1 s =
     (\<Sum>(s1, m) \<leftarrow> get_s_primes O1 s. of_real m * exp (logpsi s1 - logpsi s))"

fun all_configs :: "nat \<Rightarrow> config list" where
  "all_configs 0 = [[]]"
| "all_configs (Suc n) = map ((#) 0) (all_configs n) @ map ((#) 1) (all_configs n)"

definition weight :: "(config \<Rightarrow> complex) \<Rightarrow> config \<Rightarrow> real" where
  "weight logpsi s = exp (2 * Re (logpsi s))"

definition expectation :: "(config \<Rightarrow> complex) \<Rightarrow> operator \<Rightarrow> nat \<Rightarrow> complex" where
  "expectation logpsi O1 n =
     (\<Sum>s \<leftarrow> all_configs n. of_real (weight logpsi s) * O_loc logpsi O1 s)
       / of_real (\<Sum>s \<leftarrow> all_configs n. weight logpsi s)"

text \<open>
  The product state polarised along \<open>x\<close> on every site has the same amplitude on every
  configuration.
\<close>

definition x_polarized :: "complex \<Rightarrow> config \<Rightarrow> complex" where
  "x_polarized c s = c"



section \<open>The two TDVP equations\<close>

datatype sampler = ExactSampler nat | MCSampler nat nat

text \<open>
  The keyword arguments of a \<^verbatim>\<open>TDVP(...)\<close> construction; an argument the call leaves out is
  \<open>None\<close>.
\<close>

record tdvp =
  tdvp_sampler :: sampler
  svdTol :: real
  rhsPrefactor :: complex
  makeReal :: string
  diagonalShift :: "real option"

text \<open>
  \<^verbatim>\<open>gsEquation = TDVP(sampler, svdTol=1e-8, rhsPrefactor=1.0, makeReal='real', diagonalShift=10)\<close>
  in \<^verbatim>\<open>initialize_in_X_state\<close>, with the global \<^verbatim>\<open>sampler = ExactSampler(psi, L)\<close>.
\<close>

definition gsEquation :: "globals \<Rightarrow> tdvp" where
  "gsEquation G = \<lparr>tdvp_sampler = ExactSampler (L G), svdTol = 1 / 10 ^ 8, rhsPrefactor = 1,
     makeReal = ''real'', diagonalShift = Some 10\<rparr>"

text \<open>
  \<^verbatim>\<open>tdvpEquation = TDVP(sampler, svdTol=1e-8, rhsPrefactor=1.j, makeReal='imag')\<close>
\<close>

definition tdvpEquation :: "globals \<Rightarrow> tdvp" where
  "tdvpEquation G = \<lparr>tdvp_sampler = ExactSampler (L G), svdTol = 1 / 10 ^ 8, rhsPrefactor = \<i>,
     makeReal = ''imag'', diagonalShift = None\<rparr>"

text \<open>
  Modelled from the spec: the class \<^verbatim>\<open>TDVP\<close> of the library jVMC, which computes the force
  vector, is not in the repository. The spec says of it: a scalar right-hand-side prefactor
  scales \<open>F\<close> before return.
\<close>

definition returned_force :: "tdvp \<Rightarrow> complex list \<Rightarrow> complex list" where
  "returned_force eq F = map (\<lambda>f. rhsPrefactor eq * f) F"

section \<open>Helper functions\<close>

datatype py_error =
  FileNotFoundError | OSError | ValueError | PicklingError | UnpicklingError | ShapeError
| CollaboratorError string

subsection \<open>The norm of the adaptive stepper\<close>

text \<open>
  \<^verbatim>\<open>
  def norm_fun(v, df=lambda x: x):
      return jnp.real(jnp.conj(jnp.transpose(v)).dot(df(v)))
  \<close>
  The argument is a one-dimensional array, which \<^verbatim>\<open>jnp.transpose\<close> returns as it is; \<^verbatim>\<open>dot\<close>
  of two one-dimensional arrays is the sum of the products of their entries and raises
  when the lengths differ.
\<close>

definition jnp_transpose :: "complex list \<Rightarrow> complex list" where
  "jnp_transpose v = v"

definition jnp_conj :: "complex list \<Rightarrow> complex list" where
  "jnp_conj v = map cnj v"

definition dot :: "complex list \<Rightarrow> complex list \<Rightarrow> py_error + complex" where
  "dot a b = (if length a = length b then Inr (\<Sum>(x, y) \<leftarrow> zip a b. x * y) else Inl ShapeError)"

definition norm_fun :: "complex list \<Rightarrow> (complex list \<Rightarrow> complex list) \<Rightarrow> py_error + real" where
  "norm_fun v df =
     (case dot (jnp_conj (jnp_transpose v)) (df v) of Inl e \<Rightarrow> Inl e | Inr z \<Rightarrow> Inr (Re z))"

text \<open>The default \<^verbatim>\<open>df=lambda x: x\<close>.\<close>

definition norm_fun_default :: "complex list \<Rightarrow> py_error + real" where
  "norm_fun_default v = norm_fun v (\<lambda>x. x)"

subsection \<open>Saving and loading\<close>

text \<open>
  \<^verbatim>\<open>str\<close> of a non-negative integer is its decimal numeral. \<^verbatim>\<open>str\<close> of a float, the
  operating system's verdict on a path and the two directions of \<^verbatim>\<open>pickle\<close> are not the
  notebook's: they are parameters of the model. \<^verbatim>\<open>open\<close> raises for a path that the
  operating system does not accept (a missing directory, a name that is too long or
  holds a NUL), for reading as for writing; \<open>open_name\<close> gives the exception, or \<open>None\<close>
  when the path is accepted. \<^verbatim>\<open>pickle.dump\<close> returns or raises, and in both cases has
  written some bytes.
\<close>

fun str_nat :: "nat \<Rightarrow> string" where
  "str_nat n = (if n < 10 then [''0123456789'' ! n]
                else str_nat (n div 10) @ [''0123456789'' ! (n mod 10)])"

declare str_nat.simps [simp del]

record ('a, 'b) python =
  str_float :: "real \<Rightarrow> string"
  open_name :: "string \<Rightarrow> py_error option"
  pickle_dump :: "'a \<Rightarrow> (py_error + unit) \<times> 'b list"
  pickle_load :: "'b list \<Rightarrow> py_error + 'a"

text \<open>The files on disk: a map from paths to contents.\<close>

type_synonym 'b files = "string \<rightharpoonup> 'b list"

text \<open>
  \<^verbatim>\<open>
  def save_to_disk(data, fn=""):
      with open(fn+"L="+str(L)+"_g="+str(g)+"_h="+str(h)+".pkl", 'wb') as f:
          pickle.dump(data, f)
  \<close>
  When \<^verbatim>\<open>open\<close> raises, nothing is written. Otherwise opening for writing creates or
  truncates the file, and what \<^verbatim>\<open>pickle.dump\<close> wrote is its content afterwards, also when
  it raised.
\<close>

definition save_to_disk ::
  "('a, 'b) python \<Rightarrow> globals \<Rightarrow> 'a \<Rightarrow> string \<Rightarrow> 'b files \<Rightarrow> (py_error + unit) \<times> 'b files" where
  "save_to_disk P G d fn fs =
     (let f = fn @ ''L='' @ str_nat (L G) @ ''_g='' @ str_float P (g G)
                 @ ''_h='' @ str_float P (h G) @ ''.pkl''
      in case open_name P f of
           Some e \<Rightarrow> (Inl e, fs)
         | None \<Rightarrow> (case pickle_dump P d of (r, bytes) \<Rightarrow> (r, fs(f \<mapsto> bytes))))"

text \<open>
  \<^verbatim>\<open>
  def load_from_disk(fn=""):
      with open(fn+"L="+str(L)+"_g="+str(g)+"_h="+str(h)+".pkl", 'rb') as f:
          loaded_data = pickle.load(f)
      return loaded_data
  \<close>
\<close>

definition load_from_disk ::
  "('a, 'b) python \<Rightarrow> globals \<Rightarrow> string \<Rightarrow> 'b files \<Rightarrow> py_error + 'a" where
  "load_from_disk P G fn fs =
     (let f = fn @ ''L='' @ str_nat (L G) @ ''_g='' @ str_float P (g G)
                 @ ''_h='' @ str_float P (h G) @ ''.pkl''
      in case open_name P f of
           Some e \<Rightarrow> Inl e
         | None \<Rightarrow> (case fs f of
                       None \<Rightarrow> Inl FileNotFoundError
                     | Some bytes \<Rightarrow> pickle_load P bytes))"

text \<open>An object is picklable when dumping it succeeds and loading the dump gives it back.\<close>

definition picklable :: "('a, 'b) python \<Rightarrow> 'a \<Rightarrow> bool" where
  "picklable P d =
     (case pickle_dump P d of (Inl e, bytes) \<Rightarrow> False
                            | (Inr u, bytes) \<Rightarrow> pickle_load P bytes = Inr d)"

section \<open>The time-evolution driver\<close>

text \<open>
  The notebook calls into the library jVMC: the network \<^verbatim>\<open>psi\<close> with its parameters, the
  ground-state search, the adaptive stepper, the TDVP object's residuals and its
  \<^verbatim>\<open>S_dot\<close>, and \<^verbatim>\<open>measure\<close>. The library is not part of the repository; its functions are
  parameters of the model. Whatever they keep between calls (the stepper's step-size
  suggestion, the TDVP object's last equation, the sampler) is a state \<open>'w\<close> that every
  call may read and the search, the stepper and \<^verbatim>\<open>measure\<close> may change; each call returns a
  result or raises. \<open>'p\<close> is the type of the network parameters; \<open>psi_eval\<close> is the
  logarithmic amplitude \<^verbatim>\<open>psi(s)\<close> of the network with given parameters.
\<close>

record ('w, 'p) collaborators =
  psi_eval :: "'p \<Rightarrow> config \<Rightarrow> complex"
  ground_state_search :: "'w \<Rightarrow> 'p \<Rightarrow> operator \<Rightarrow> tdvp \<Rightarrow> sampler \<Rightarrow> nat \<Rightarrow> py_error + 'p \<times> 'w"
  AdaptiveHeun :: "real \<Rightarrow> real \<Rightarrow> 'w \<Rightarrow> 'w"
  step :: "'w \<Rightarrow> real \<Rightarrow> tdvp \<Rightarrow> 'p \<Rightarrow> operator \<Rightarrow> ('w \<Rightarrow> complex list \<Rightarrow> py_error + real)
             \<Rightarrow> py_error + ('p \<times> real) \<times> 'w"
  S_dot :: "'w \<Rightarrow> complex list \<Rightarrow> complex list"
  get_residuals :: "'w \<Rightarrow> py_error + real \<times> real"
  measure_obs :: "'w \<Rightarrow> (string \<times> operator) list \<Rightarrow> 'p \<Rightarrow> sampler
                    \<Rightarrow> py_error + (string \<Rightarrow> real) \<times> 'w"
  set_parameters :: "'p \<Rightarrow> 'p \<Rightarrow> py_error + 'p"
  unfreeze :: "'p \<Rightarrow> py_error + 'p"


text \<open>The dictionary \<^verbatim>\<open>data\<close> with its three lists.\<close>

record 'p series =
  parameters :: "'p list"
  observables :: "real list list"
  residuals :: "real list list"

text \<open>
  The variables of the cell: the time, the last step size, the network parameters held
  by \<^verbatim>\<open>psi\<close>, the state of the library, the recorded series and the files on disk. Times
  are real numbers and \<open>+\<close> on them stands for the addition of the program, which rounds;
  what is proved about the end of the loop is stated on the stored times and does not
  use that a sum is exact.
\<close>

record ('w, 'p, 'b) driver_state =
  t :: real
  dt :: real
  psi :: 'p
  world :: 'w
  data :: "'p series"
  disk :: "'b files"

datatype ('w, 'p, 'b) outcome =
  Running "('w, 'p, 'b) driver_state"
| Finished "('w, 'p, 'b) driver_state"
| Raised py_error "('w, 'p, 'b) driver_state"

fun state_of :: "('w, 'p, 'b) outcome \<Rightarrow> ('w, 'p, 'b) driver_state" where
  "state_of (Running s) = s"
| "state_of (Finished s) = s"
| "state_of (Raised e s) = s"

text \<open>\<^verbatim>\<open>normFunction=partial(norm_fun, df=tdvpEquation.S_dot)\<close>\<close>

definition normFunction :: "('w, 'p) collaborators \<Rightarrow> 'w \<Rightarrow> complex list \<Rightarrow> py_error + real" where
  "normFunction C w v = norm_fun v (S_dot C w)"

text \<open>
  \<^verbatim>\<open>
  stepper.step(t, tdvpEquation, psi.get_parameters(), hamiltonian=H, psi=psi,
               normFunction=partial(norm_fun, df=tdvpEquation.S_dot))
  \<close>
\<close>

definition tdvp_step ::
  "globals \<Rightarrow> ('w, 'p) collaborators \<Rightarrow> ('w, 'p, 'b) driver_state \<Rightarrow> py_error + ('p \<times> real) \<times> 'w" where
  "tdvp_step G C s =
     step C (world s) (t s) (tdvpEquation G) (psi s) (H_operator G) (normFunction C)"

text \<open>
  The three appends, each a statement of its own:
  \<^verbatim>\<open>
  data["observables"].append([t, obs["energy"]["mean"][0], obs["X"]["mean"][0]])
  data["parameters"].append(psi.params.unfreeze())
  data["residuals"].append([t-dt, tdvpErr, linEqRes])
  \<close>
  The second one calls \<^verbatim>\<open>unfreeze\<close>, which may raise: then nothing is appended and the
  exception leaves the cell with the state as it is.
\<close>

definition append_observables ::
  "('w, 'p, 'b) driver_state \<Rightarrow> (string \<Rightarrow> real) \<Rightarrow> ('w, 'p, 'b) driver_state" where
  "append_observables s obs =
     s\<lparr>data := (data s)\<lparr>observables := observables (data s)
                            @ [[t s, obs ''energy'', obs ''X'']]\<rparr>\<rparr>"

definition append_parameters ::
  "('w, 'p) collaborators \<Rightarrow> ('w, 'p, 'b) driver_state
     \<Rightarrow> py_error \<times> ('w, 'p, 'b) driver_state + ('w, 'p, 'b) driver_state" where
  "append_parameters C s =
     (case unfreeze C (psi s) of
        Inl e \<Rightarrow> Inl (e, s)
      | Inr snapshot \<Rightarrow>
          Inr (s\<lparr>data := (data s)\<lparr>parameters := parameters (data s) @ [snapshot]\<rparr>\<rparr>))"

definition append_residuals ::
  "('w, 'p, 'b) driver_state \<Rightarrow> real \<Rightarrow> real \<Rightarrow> ('w, 'p, 'b) driver_state" where
  "append_residuals s tdvpErr linEqRes =
     s\<lparr>data := (data s)\<lparr>residuals := residuals (data s)
                            @ [[t s - dt s, tdvpErr, linEqRes]]\<rparr>\<rparr>"

text \<open>
  One pass through the body of the loop (the timing and the printing left out):
  \<^verbatim>\<open>
  dp, dt = stepper.step(...)
  psi.set_parameters(dp)
  t += dt
  tdvpErr, linEqRes = tdvpEquation.get_residuals()
  obs = measure(observables, psi, sampler)
  data["observables"].append([t, obs["energy"]["mean"][0], obs["X"]["mean"][0]])
  data["parameters"].append(psi.params.unfreeze())
  data["residuals"].append([t-dt, tdvpErr, linEqRes])
  \<close>
  The result is the state after the pass, or the exception of a library call with the
  state of the cell's variables at the moment it was raised.
\<close>

definition body ::
  "globals \<Rightarrow> ('w, 'p) collaborators \<Rightarrow> ('w, 'p, 'b) driver_state
     \<Rightarrow> py_error \<times> ('w, 'p, 'b) driver_state + ('w, 'p, 'b) driver_state" where
  "body G C s =
     (case tdvp_step G C s of
        Inl e \<Rightarrow> Inl (e, s)
      | Inr ((dp, dt1), w1) \<Rightarrow>
          let s1 = s\<lparr>dt := dt1, world := w1\<rparr>
          in (case set_parameters C (psi s1) dp of
                Inl e \<Rightarrow> Inl (e, s1)
              | Inr p1 \<Rightarrow>
                  let s2 = s1\<lparr>psi := p1\<rparr>;
                      s3 = s2\<lparr>t := t s2 + dt s2\<rparr>
                  in (case get_residuals C (world s3) of
                        Inl e \<Rightarrow> Inl (e, s3)
                      | Inr (tdvpErr, linEqRes) \<Rightarrow>
                          (case measure_obs C (world s3) (observables_dict G) (psi s3)
                                  (ExactSampler (L G)) of
                             Inl e \<Rightarrow> Inl (e, s3)
                           | Inr (obs, w2) \<Rightarrow>
                               (case append_parameters C
                                       (append_observables (s3\<lparr>world := w2\<rparr>) obs) of
                                  Inl (e, s4) \<Rightarrow> Inl (e, s4)
                                | Inr s5 \<Rightarrow> Inr (append_residuals s5 tdvpErr linEqRes))))))"

text \<open>
  \<^verbatim>\<open>while t < tmax:\<close> The loop may run forever: it is a partial function, and \<open>None\<close>
  says that it does not return.
\<close>

partial_function (option) while_loop ::
  "globals \<Rightarrow> ('w, 'p) collaborators \<Rightarrow> ('w, 'p, 'b) driver_state
     \<Rightarrow> ('w, 'p, 'b) outcome option" where
  "while_loop G C s =
     (if t s < tmax G then
        (case body G C s of
           Inl (e, s1) \<Rightarrow> Some (Raised e s1)
         | Inr s1 \<Rightarrow> while_loop G C s1)
      else Some (Finished s))"

text \<open>
  The same loop cut off after \<open>n\<close> passes: \<open>Running s\<close> is the state in which the loop is
  about to test its condition for the \<open>(n+1)\<close>-th time.
\<close>

fun iterate ::
  "globals \<Rightarrow> ('w, 'p) collaborators \<Rightarrow> nat \<Rightarrow> ('w, 'p, 'b) driver_state
     \<Rightarrow> ('w, 'p, 'b) outcome" where
  "iterate G C 0 s = Running s"
| "iterate G C (Suc n) s =
     (if t s < tmax G then
        (case body G C s of
           Inl (e, s1) \<Rightarrow> Raised e s1
         | Inr s1 \<Rightarrow> iterate G C n s1)
      else Finished s)"

text \<open>
  The cell up to the loop:
  \<^verbatim>\<open>
  t = 0.0
  dt = 1e-3
  tmax = 2.0
  stepper = jVMC.util.stepper.AdaptiveHeun(timeStep=dt, tol=1e-4)
  obs = measure(observables, psi, sampler)
  data = {"parameters": [], "observables": [], "residuals": []}
  data["observables"].append([t, obs["energy"]["mean"][0], obs["X"]["mean"][0]])
  data["parameters"].append(psi.params.unfreeze())
  save_to_disk(data, fn="ffn_width="+str(width)+"_")
  \<close>
\<close>

definition stepper :: "globals \<Rightarrow> ('w, 'p) collaborators \<Rightarrow> 'w \<Rightarrow> 'w" where
  "stepper G C w = AdaptiveHeun C (dt0 G) (1 / 10 ^ 4) w"

definition fn_prefix :: "globals \<Rightarrow> string" where
  "fn_prefix G = ''ffn_width='' @ str_nat (width G) @ ''_''"

definition initialise ::
  "globals \<Rightarrow> ('w, 'p) collaborators \<Rightarrow> ('p series, 'b) python \<Rightarrow> 'w \<Rightarrow> 'p \<Rightarrow> 'b files
     \<Rightarrow> py_error + ('w, 'p, 'b) driver_state" where
  "initialise G C P w0 p0 fs0 =
     (let w1 = stepper G C w0 in
      case measure_obs C w1 (observables_dict G) p0 (ExactSampler (L G)) of
        Inl e \<Rightarrow> Inl e
      | Inr (obs, w2) \<Rightarrow>
          let s0 = \<lparr>t = 0, dt = dt0 G, psi = p0, world = w2,
                    data = \<lparr>parameters = [], observables = [], residuals = []\<rparr>,
                    disk = fs0\<rparr>
          in (case append_parameters C (append_observables s0 obs) of
                Inl (e, s1) \<Rightarrow> Inl e
              | Inr s2 \<Rightarrow>
                  (case save_to_disk P G (data s2) (fn_prefix G) (disk s2) of
                     (Inl e, fs1) \<Rightarrow> Inl e
                   | (Inr u, fs1) \<Rightarrow> Inr (s2\<lparr>disk := fs1\<rparr>))))"

text \<open>
  The whole cell: the loop, and after it
  \<^verbatim>\<open>save_to_disk(data, fn="ffn_width="+str(width)+"_")\<close>. An exception leaves the cell
  where it is raised, so the last save is reached only when the loop ends by its
  condition.
\<close>

definition driver ::
  "globals \<Rightarrow> ('w, 'p) collaborators \<Rightarrow> ('p series, 'b) python \<Rightarrow> 'w \<Rightarrow> 'p \<Rightarrow> 'b files
     \<Rightarrow> (py_error + ('w, 'p, 'b) outcome) option" where
  "driver G C P w0 p0 fs0 =
     (case initialise G C P w0 p0 fs0 of
        Inl e \<Rightarrow> Some (Inl e)
      | Inr s0 \<Rightarrow>
          (case while_loop G C s0 of
             None \<Rightarrow> None
           | Some (Finished s) \<Rightarrow>
               (case save_to_disk P G (data s) (fn_prefix G) (disk s) of
                  (Inl e, fs1) \<Rightarrow> Some (Inr (Raised e (s\<lparr>disk := fs1\<rparr>)))
                | (Inr u, fs1) \<Rightarrow> Some (Inr (Finished (s\<lparr>disk := fs1\<rparr>))))
           | Some r \<Rightarrow> Some (Inr r)))"


section \<open>Concrete collaborators\<close>

text \<open>
  Three libraries on which the notebook can be run. In all of them the search returns the
  parameters it is given, the network has the same amplitude on every configuration,
  the residuals are 0, every observable is measured as 1 and \<^verbatim>\<open>S_dot\<close> doubles its
  argument. The first accepts the same step size \<open>d\<close> in every call. The second starts
  from the \<^verbatim>\<open>timeStep\<close> it was constructed with and halves its step size after every
  accepted step. The third counts the steps in the parameters, and its \<^verbatim>\<open>unfreeze\<close> raises
  for all parameters but the first.
\<close>

definition uniform_stepper :: "real \<Rightarrow> (unit, unit) collaborators" where
  "uniform_stepper d =
     \<lparr>psi_eval = (\<lambda>p. x_polarized 0),
      ground_state_search = (\<lambda>w p ham eq smp k. Inr (p, w)),
      AdaptiveHeun = (\<lambda>ts tl w. w),
      step = (\<lambda>w tm eq p hh nf. Inr ((p, d), w)),
      S_dot = (\<lambda>w v. map (\<lambda>z. 2 * z) v),
      get_residuals = (\<lambda>w. Inr (0, 0)),
      measure_obs = (\<lambda>w ob p smp. Inr ((\<lambda>name. 1), w)),
      set_parameters = (\<lambda>p dp. Inr dp),
      unfreeze = (\<lambda>p. Inr p)\<rparr>"

definition halving_stepper :: "(real, unit) collaborators" where
  "halving_stepper =
     \<lparr>psi_eval = (\<lambda>p. x_polarized 0),
      ground_state_search = (\<lambda>w p ham eq smp k. Inr (p, w)),
      AdaptiveHeun = (\<lambda>ts tl w. ts),
      step = (\<lambda>w tm eq p hh nf. Inr ((p, w), w / 2)),
      S_dot = (\<lambda>w v. map (\<lambda>z. 2 * z) v),
      get_residuals = (\<lambda>w. Inr (0, 0)),
      measure_obs = (\<lambda>w ob p smp. Inr ((\<lambda>name. 1), w)),
      set_parameters = (\<lambda>p dp. Inr dp),
      unfreeze = (\<lambda>p. Inr p)\<rparr>"

definition failing_snapshot :: "(unit, nat) collaborators" where
  "failing_snapshot =
     \<lparr>psi_eval = (\<lambda>p. x_polarized 0),
      ground_state_search = (\<lambda>w p ham eq smp k. Inr (p, w)),
      AdaptiveHeun = (\<lambda>ts tl w. w),
      step = (\<lambda>w tm eq p hh nf. Inr ((Suc p, 1 / 2), w)),
      S_dot = (\<lambda>w v. map (\<lambda>z. 2 * z) v),
      get_residuals = (\<lambda>w. Inr (0, 0)),
      measure_obs = (\<lambda>w ob p smp. Inr ((\<lambda>name. 1), w)),
      set_parameters = (\<lambda>p dp. Inr dp),
      unfreeze = (\<lambda>p. if p = 0 then Inr p else Inl (CollaboratorError ''unfreeze''))\<rparr>"

text \<open>
  A Python whose pickle writes the object itself as the one byte of the file, whose
  \<^verbatim>\<open>str\<close> prints the two floats of the notebook, and whose working directory has no
  subdirectory: a path with a slash names a missing directory.
\<close>

definition identity_pickle :: "('a, 'a) python" where
  "identity_pickle =
     \<lparr>str_float = (\<lambda>x. if x = 3 / 10 then ''0.3'' else if x = 1 / 4 then ''0.25'' else ''?''),
      open_name = (\<lambda>f. if CHR ''/'' \<in> set f then Some FileNotFoundError else None),
      pickle_dump = (\<lambda>d. (Inr (), [d])),
      pickle_load = (\<lambda>bytes. case bytes of [d] \<Rightarrow> Inr d | _ \<Rightarrow> Inl UnpicklingError)\<rparr>"

text \<open>The state in which the loop starts when the notebook runs on the uniform stepper.\<close>

definition first_series :: "unit series" where
  "first_series = \<lparr>parameters = [()], observables = [[0, 1, 1]], residuals = []\<rparr>"

definition example_start :: "(unit, unit, unit series) driver_state" where
  "example_start =
     \<lparr>t = 0, dt = 1 / 10 ^ 3, psi = (), world = (), data = first_series,
      disk = [''ffn_width=60_L=8_g=0.3_h=0.25.pkl'' \<mapsto> [first_series]]\<rparr>"

text \<open>
  The state in which the loop starts when the notebook runs on the library whose
  \<^verbatim>\<open>unfreeze\<close> raises, and the state in which its first pass is left.
\<close>

definition snapshot_start :: "(unit, nat, nat series) driver_state" where
  "snapshot_start =
     \<lparr>t = 0, dt = 1 / 10 ^ 3, psi = 0, world = (),
      data = \<lparr>parameters = [0], observables = [[0, 1, 1]], residuals = []\<rparr>,
      disk = [''ffn_width=60_L=8_g=0.3_h=0.25.pkl''
                \<mapsto> [\<lparr>parameters = [0], observables = [[0, 1, 1]], residuals = []\<rparr>]]\<rparr>"

definition snapshot_raised :: "(unit, nat, nat series) driver_state" where
  "snapshot_raised =
     snapshot_start\<lparr>t := 1 / 2, dt := 1 / 2, psi := 1,
        data := \<lparr>parameters = [0], observables = [[0, 1, 1], [1 / 2, 1, 1]],
                 residuals = []\<rparr>\<rparr>"

text \<open>The series and the state in which the loop of the run on the uniform stepper ends.\<close>

definition final_series :: "unit series" where
  "final_series =
     \<lparr>parameters = [(), (), (), (), ()],
      observables = [[0, 1, 1], [1 / 2, 1, 1], [1, 1, 1], [3 / 2, 1, 1], [2, 1, 1]],
      residuals = [[0, 0, 0], [1 / 2, 0, 0], [1, 0, 0], [3 / 2, 0, 0]]\<rparr>"

definition example_end :: "(unit, unit, unit series) driver_state" where
  "example_end = example_start\<lparr>t := 2, dt := 1 / 2, data := final_series\<rparr>"

section \<open>Predicates of the claims\<close>

text \<open>Every step size that the stepper returns is at least \<open>\<delta>\<close>.\<close>

definition accepted_steps_at_least :: "real \<Rightarrow> ('w, 'p) collaborators \<Rightarrow> bool" where
  "accepted_steps_at_least \<delta> C \<longleftrightarrow>
     (\<forall>w tm eq p hh nf dp d w1. step C w tm eq p hh nf = Inr ((dp, d), w1) \<longrightarrow> \<delta> \<le> d)"

text \<open>
  Every completed pass of the loop started in \<open>s\<close> leaves the stored time at least \<open>\<delta>\<close>
  above the stored time with which it began.
\<close>

definition passes_advance_by ::
  "real \<Rightarrow> globals \<Rightarrow> ('w, 'p) collaborators \<Rightarrow> ('w, 'p, 'b) driver_state \<Rightarrow> bool" where
  "passes_advance_by \<delta> G C s \<longleftrightarrow>
     (\<forall>k a s1. iterate G C k s = Running a \<longrightarrow> t a < tmax G \<longrightarrow> body G C a = Inr s1
        \<longrightarrow> t a + \<delta> \<le> t s1)"



section \<open>Properties of the operators\<close>

lemma foldl_add: "foldl (\<lambda>acc l. add acc (f l)) acc0 ls = acc0 @ map f ls"
  by (induction ls arbitrary: acc0) (simp_all add: add_def)


lemma X_operator_terms: "X_operator G = map (\<lambda>l. (1 / real (L G), [Sx l])) [0..<L G]"
  by (simp add: X_operator_def foldl_add BranchFreeOperator_def scal_opstr_def)



lemma sum_list_const: "(\<Sum>x \<leftarrow> xs. (c::'a::semiring_1)) = of_nat (length xs) * c"
  by (induction xs) (simp_all add: algebra_simps)

lemma O_loc_X_polarized:
  assumes "0 < L G"
  shows "O_loc (x_polarized c) (X_operator G) s = 1"
proof -
  have "O_loc (x_polarized c) (X_operator G) s
          = (\<Sum>l \<leftarrow> [0..<L G]. of_real (1 / real (L G)))"
    by (simp add: O_loc_def get_s_primes_def X_operator_terms x_polarized_def comp_def)
  also have "\<dots> = of_nat (L G) * of_real (1 / real (L G))"
    by (simp add: sum_list_const)
  also have "\<dots> = 1"
    using assms by simp
  finally show ?thesis .
qed

lemma all_configs_nonempty: "all_configs n \<noteq> []"
  by (induction n) simp_all

lemma weight_sum_pos: "xs \<noteq> [] \<Longrightarrow> 0 < (\<Sum>s \<leftarrow> xs. weight logpsi s)"
proof (induction xs)
  case Nil
  then show ?case by simp
next
  case (Cons x xs)
  have "0 < weight logpsi x" by (simp add: weight_def)
  moreover have "0 \<le> (\<Sum>s \<leftarrow> xs. weight logpsi s)"
    by (rule sum_list_nonneg) (auto simp: weight_def)
  ultimately show ?case by simp
qed

lemma of_real_sum_list_map:
  "(of_real (\<Sum>x \<leftarrow> xs. f x) :: complex) = (\<Sum>x \<leftarrow> xs. of_real (f x))"
  by (induction xs) simp_all

lemma expectation_of_unit_estimator:
  assumes "\<And>s. O_loc logpsi O1 s = 1"
  shows "expectation logpsi O1 n = 1"
proof -
  have pos: "0 < (\<Sum>s \<leftarrow> all_configs n. weight logpsi s)"
    by (rule weight_sum_pos) (rule all_configs_nonempty)
  have "(\<Sum>s \<leftarrow> all_configs n. of_real (weight logpsi s) * O_loc logpsi O1 s)
          = (of_real (\<Sum>s \<leftarrow> all_configs n. weight logpsi s) :: complex)"
    by (simp add: assms of_real_sum_list_map)
  then show ?thesis
    using pos by (simp add: expectation_def)
qed

section \<open>The measured observable\<close>

text \<open>
  Claim C10. The observable \<open>X\<close> is the polarisation along \<open>x\<close> averaged over the sites:
  for \<open>L > 0\<close> its terms are exactly the \<open>L\<close> single-site operators \<open>\<sigma>\<^sup>x\<^sub>l\<close>, each with
  coefficient \<open>1/L\<close>; the coefficients add up to 1, and the expectation value in the
  product state polarised along \<open>x\<close> is 1.
\<close>

theorem X_is_site_averaged_polarization:
  assumes "0 < L G"
  shows "X_operator G = map (\<lambda>l. (1 / real (L G), [Sx l])) [0..<L G]
       \<and> length (X_operator G) = L G
       \<and> (\<Sum>(c, ops) \<leftarrow> X_operator G. c) = 1
       \<and> expectation (x_polarized c) (X_operator G) (L G) = 1"
proof -
  have "(\<Sum>(c, ops) \<leftarrow> X_operator G. c) = (\<Sum>l \<leftarrow> [0..<L G]. 1 / real (L G))"
    by (simp add: X_operator_terms comp_def)
  also have "\<dots> = 1" using assms by (simp add: sum_list_const)
  finally have coeffs: "(\<Sum>(c, ops) \<leftarrow> X_operator G. c) = 1" .
  have "expectation (x_polarized c) (X_operator G) (L G) = 1"
    by (rule expectation_of_unit_estimator) (rule O_loc_X_polarized [OF assms])
  with coeffs show ?thesis by (simp add: X_operator_terms)
qed

theorem X_is_site_averaged_polarization_witness:
  "0 < L notebook
   \<and> X_operator notebook = map (\<lambda>l. (1 / real (L notebook), [Sx l])) [0..<L notebook]
   \<and> (\<Sum>(c, ops) \<leftarrow> X_operator notebook. c) = 1
   \<and> expectation (x_polarized 0) (X_operator notebook) (L notebook) = 1"
proof -
  have pos: "0 < L notebook" by (simp add: notebook_def)
  from pos X_is_site_averaged_polarization [OF pos, of 0] show ?thesis by blast
qed

section \<open>The ground state of the initial Hamiltonian\<close>

















section \<open>Ground-state search and real-time evolution\<close>

text \<open>
  Claim C6. The TDVP equation of the ground-state search is constructed with the real
  prefactor 1 and \<^verbatim>\<open>makeReal='real'\<close>, the one of the time evolution with the purely
  imaginary prefactor \<open>\<i>\<close> and \<^verbatim>\<open>makeReal='imag'\<close>; the force vector is returned multiplied
  by the prefactor.
\<close>

theorem tdvp_prefactors:
  "rhsPrefactor (gsEquation G) = 1 \<and> Im (rhsPrefactor (gsEquation G)) = 0
   \<and> makeReal (gsEquation G) = ''real''
   \<and> rhsPrefactor (tdvpEquation G) = \<i> \<and> Re (rhsPrefactor (tdvpEquation G)) = 0
   \<and> Im (rhsPrefactor (tdvpEquation G)) = 1
   \<and> makeReal (tdvpEquation G) = ''imag''
   \<and> returned_force (gsEquation G) F = F
   \<and> returned_force (tdvpEquation G) F = map (\<lambda>f. \<i> * f) F"
  by (simp add: gsEquation_def tdvpEquation_def returned_force_def)

section \<open>The norm handed to the stepper\<close>

lemma dot_as_sum:
  assumes "length a = length b"
  shows "dot a b = Inr (\<Sum>i<length a. a ! i * b ! i)"
proof -
  have "(\<Sum>(x, y) \<leftarrow> zip a b. x * y) = (\<Sum>i = 0..<length (zip a b). (case zip a b ! i of (x, y) \<Rightarrow> x * y))"
    by (simp add: sum_list_sum_nth)
  also have "\<dots> = (\<Sum>i = 0..<length a. a ! i * b ! i)"
    using assms by (intro sum.cong) simp_all
  finally show ?thesis
    using assms by (simp add: dot_def atLeast0LessThan)
qed

lemma norm_fun_as_sum:
  assumes "length (df v) = length v"
  shows "norm_fun v df = Inr (Re (\<Sum>i<length v. cnj (v ! i) * df v ! i))"
proof -
  have "dot (jnp_conj (jnp_transpose v)) (df v)
          = Inr (\<Sum>i<length v. map cnj v ! i * df v ! i)"
    using dot_as_sum [of "map cnj v" "df v"] assms by (simp add: jnp_conj_def jnp_transpose_def)
  also have "(\<Sum>i<length v. map cnj v ! i * df v ! i) = (\<Sum>i<length v. cnj (v ! i) * df v ! i)"
    by (intro sum.cong) simp_all
  finally show ?thesis by (simp add: norm_fun_def)
qed

lemma Re_cnj_mult_self: "Re (cnj z * z) = (cmod z)\<^sup>2"
  unfolding cmod_power2 by (simp add: power2_eq_square)

lemma norm_fun_default_euclidean:
  "norm_fun_default v = Inr (\<Sum>i<length v. (cmod (v ! i))\<^sup>2)"
proof -
  have "Re (\<Sum>i<length v. cnj (v ! i) * v ! i) = (\<Sum>i<length v. Re (cnj (v ! i) * v ! i))"
    by (rule Re_sum)
  also have "\<dots> = (\<Sum>i<length v. (cmod (v ! i))\<^sup>2)"
    by (simp only: Re_cnj_mult_self)
  finally show ?thesis
    using norm_fun_as_sum [of "\<lambda>x. x" v] by (simp add: norm_fun_default_def)
qed

text \<open>
  Claim C5. When \<^verbatim>\<open>S_dot\<close> returns a vector of the length of its argument, the norm
  function that the driver hands to the stepper computes, for every vector \<open>v\<close>, the real
  part of \<open>conj(v)\<^sup>T \<cdot> S_dot(v)\<close>: the stepper is called with this function, not with the
  Euclidean norm that \<^verbatim>\<open>norm_fun\<close> computes by default.
\<close>

theorem norm_fun_is_metric_norm:
  assumes "\<forall>w v. length (S_dot C w v) = length v"
  shows "normFunction C w v = Inr (Re (\<Sum>i<length v. cnj (v ! i) * S_dot C w v ! i))
       \<and> tdvp_step G C s =
           step C (world s) (t s) (tdvpEquation G) (psi s) (H_operator G)
             (\<lambda>w v. Inr (Re (\<Sum>i<length v. cnj (v ! i) * S_dot C w v ! i)))
       \<and> norm_fun_default v = Inr (\<Sum>i<length v. (cmod (v ! i))\<^sup>2)"
proof -
  have nf: "normFunction C w v = Inr (Re (\<Sum>i<length v. cnj (v ! i) * S_dot C w v ! i))" for w v
    using assms by (simp add: normFunction_def norm_fun_as_sum)
  then have "normFunction C = (\<lambda>w v. Inr (Re (\<Sum>i<length v. cnj (v ! i) * S_dot C w v ! i)))"
    by (intro ext)
  then show ?thesis
    using nf by (simp add: tdvp_step_def norm_fun_default_euclidean)
qed

theorem norm_fun_is_metric_norm_witness:
  "(\<forall>w v. length (S_dot (uniform_stepper (1 / 2)) w v) = length v)
   \<and> normFunction (uniform_stepper (1 / 2)) () [1, \<i>] = Inr 4
   \<and> norm_fun_default [1, \<i>] = Inr 2"
proof -
  have len: "\<forall>w v. length (S_dot (uniform_stepper (1 / 2)) w v) = length v"
    by (simp add: uniform_stepper_def)
  from norm_fun_is_metric_norm [OF len, of "()" "[1, \<i>]" notebook example_start]
  show ?thesis
    using len by (simp add: uniform_stepper_def lessThan_Suc numeral_2_eq_2)
qed

section \<open>Saving and loading\<close>

text \<open>
  Claim C8, as stated: the round trip holds for every file-name prefix. In a working
  directory without the subdirectory \<^verbatim>\<open>nodir\<close>, saving a picklable object under the prefix
  \<^verbatim>\<open>nodir/run_\<close> raises and writes nothing, and loading raises too.
\<close>

theorem unopenable_prefix_counterexample:
  "picklable identity_pickle (5::nat)
   \<and> save_to_disk identity_pickle notebook (5::nat) ''nodir/run_'' Map.empty
       = (Inl FileNotFoundError, Map.empty)
   \<and> load_from_disk identity_pickle notebook ''nodir/run_''
        (snd (save_to_disk identity_pickle notebook (5::nat) ''nodir/run_'' Map.empty))
       = (Inl FileNotFoundError :: py_error + nat)"
  by (simp add: picklable_def save_to_disk_def load_from_disk_def identity_pickle_def)

text \<open>
  Claim C8, amended. For a picklable object and a file-name prefix whose file
  \<^verbatim>\<open>fn + "L=<L>_g=<g>_h=<h>.pkl"\<close> can be opened, with the same globals, saving succeeds
  and loading afterwards returns the object saved last, whatever was on disk before;
  both functions build that same file name.
\<close>

theorem save_load_round_trip:
  assumes "picklable P d"
    and "open_name P (fn @ ''L='' @ str_nat (L G) @ ''_g='' @ str_float P (g G)
                          @ ''_h='' @ str_float P (h G) @ ''.pkl'') = None"
  shows "fst (save_to_disk P G d fn fs) = Inr ()
       \<and> load_from_disk P G fn (snd (save_to_disk P G d fn fs)) = Inr d
       \<and> load_from_disk P G fn
            (snd (save_to_disk P G d fn (snd (save_to_disk P G d1 fn fs)))) = Inr d
       \<and> dom (snd (save_to_disk P G d fn fs)) =
            insert (fn @ ''L='' @ str_nat (L G) @ ''_g='' @ str_float P (g G)
                       @ ''_h='' @ str_float P (h G) @ ''.pkl'') (dom fs)"
  using assms
  by (auto simp: picklable_def save_to_disk_def load_from_disk_def Let_def
           split: prod.splits sum.splits)

text \<open>The prefix \<^verbatim>\<open>run_\<close> in the working directory, with the globals of the notebook.\<close>

theorem save_load_round_trip_witness:
  "picklable identity_pickle (5::nat)
   \<and> open_name (identity_pickle :: (nat, nat) python)
        (''run_'' @ ''L='' @ str_nat (L notebook) @ ''_g=''
           @ str_float (identity_pickle :: (nat, nat) python) (g notebook)
           @ ''_h='' @ str_float (identity_pickle :: (nat, nat) python) (h notebook) @ ''.pkl'')
       = None
   \<and> fst (save_to_disk identity_pickle notebook (5::nat) ''run_'' Map.empty) = Inr ()
   \<and> load_from_disk identity_pickle notebook ''run_''
        (snd (save_to_disk identity_pickle notebook (5::nat) ''run_'' Map.empty)) = Inr 5
   \<and> dom (snd (save_to_disk identity_pickle notebook (5::nat) ''run_'' Map.empty))
        = {''run_L=8_g=0.3_h=0.25.pkl''}"
proof -
  have p: "picklable identity_pickle (5::nat)"
    by (simp add: picklable_def identity_pickle_def)
  have o: "open_name (identity_pickle :: (nat, nat) python)
        (''run_'' @ ''L='' @ str_nat (L notebook) @ ''_g=''
           @ str_float (identity_pickle :: (nat, nat) python) (g notebook)
           @ ''_h='' @ str_float (identity_pickle :: (nat, nat) python) (h notebook) @ ''.pkl'')
       = None"
    by (simp add: identity_pickle_def notebook_def str_nat.simps)
  from save_load_round_trip [OF p o, of Map.empty 5]
  show ?thesis
    using p o by (simp add: identity_pickle_def notebook_def str_nat.simps)
qed

section \<open>The driver loop\<close>

subsection \<open>One pass and the cut-off loop\<close>

lemma body_accepted:
  assumes "body G C s = Inr s1"
  obtains dp d w1 p1 e r obs w2 snapshot where
    "tdvp_step G C s = Inr ((dp, d), w1)"
    "set_parameters C (psi s) dp = Inr p1"
    "get_residuals C w1 = Inr (e, r)"
    "measure_obs C w1 (observables_dict G) p1 (ExactSampler (L G)) = Inr (obs, w2)"
    "unfreeze C p1 = Inr snapshot"
    "t s1 = t s + d" "dt s1 = d" "psi s1 = p1" "world s1 = w2" "disk s1 = disk s"
    "observables (data s1) = observables (data s) @ [[t s1, obs ''energy'', obs ''X'']]"
    "parameters (data s1) = parameters (data s) @ [snapshot]"
    "residuals (data s1) = residuals (data s) @ [[t s1 - dt s1, e, r]]"
  using assms
  by (auto simp: body_def Let_def append_observables_def append_parameters_def
        append_residuals_def split: sum.splits prod.splits)

lemma body_raised:
  assumes "body G C s = Inl (e, s1)"
  shows "disk s1 = disk s
       \<and> (t s1 = t s \<or> (\<exists>dp d w1. tdvp_step G C s = Inr ((dp, d), w1) \<and> t s1 = t s + d))
       \<and> (data s1 = data s
            \<or> unfreeze C (psi s1) = Inl e
               \<and> observables (data s1) = observables (data s) @ [last (observables (data s1))]
               \<and> parameters (data s1) = parameters (data s)
               \<and> residuals (data s1) = residuals (data s))"
  using assms
  by (auto simp: body_def Let_def append_observables_def append_parameters_def
        append_residuals_def split: sum.splits prod.splits)

lemma tdvp_step_at_least:
  "accepted_steps_at_least \<delta> C \<Longrightarrow> tdvp_step G C s = Inr ((dp, d), w1) \<Longrightarrow> \<delta> \<le> d"
  unfolding accepted_steps_at_least_def tdvp_step_def by blast

lemma iterate_add:
  "iterate G C (m + k) s = (case iterate G C m s of Running a \<Rightarrow> iterate G C k a | r \<Rightarrow> r)"
  by (induction m arbitrary: s) (auto split: sum.splits prod.splits)

lemma iterate_time_mono:
  assumes "accepted_steps_at_least 0 C"
  shows "t s \<le> t (state_of (iterate G C n s))"
proof (induction n arbitrary: s)
  case 0
  show ?case by simp
next
  case (Suc n)
  show ?case
  proof (cases "t s < tmax G")
    case False
    then show ?thesis by simp
  next
    case True
    show ?thesis
    proof (cases "body G C s")
      case (Inl x)
      obtain e s1 where x: "x = (e, s1)" by (cases x)
      from body_raised [of G C s e s1] Inl x tdvp_step_at_least [OF assms]
      have "t s \<le> t s1" by fastforce
      with True Inl x show ?thesis by simp
    next
      case (Inr s1)
      from Inr obtain dp d w1 where st: "tdvp_step G C s = Inr ((dp, d), w1)" and ts: "t s1 = t s + d"
        by (rule body_accepted)
      from tdvp_step_at_least [OF assms st] ts have "t s \<le> t s1" by simp
      also have "\<dots> \<le> t (state_of (iterate G C n s1))" by (rule Suc.IH)
      finally show ?thesis using True Inr by simp
    qed
  qed
qed

lemma iterate_sound:
  "iterate G C n s = r \<Longrightarrow> (\<forall>a. r \<noteq> Running a) \<Longrightarrow> while_loop G C s = Some r"
proof (induction n arbitrary: s)
  case 0
  then show ?case by auto
next
  case (Suc n)
  then show ?case
    by (subst while_loop.simps) (auto split: sum.splits prod.splits if_splits)
qed

lemma while_loop_complete:
  assumes "while_loop G C s = Some r"
  shows "\<exists>n. iterate G C n s = r \<and> (\<forall>a. r \<noteq> Running a)"
proof (rule while_loop.raw_induct
    [where P = "\<lambda>G C s r. \<exists>n. iterate G C n s = r \<and> (\<forall>a. r \<noteq> Running a)", OF _ assms])
  fix f :: "globals \<Rightarrow> ('a, 'b) collaborators \<Rightarrow> ('a, 'b, 'c) driver_state
              \<Rightarrow> ('a, 'b, 'c) outcome option"
    and G C s r
  assume IH: "\<And>G C s r. f G C s = Some r \<Longrightarrow>
                 \<exists>n. iterate G C n s = r \<and> (\<forall>a. r \<noteq> Running a)"
    and eq: "(if t s < tmax G
              then case body G C s of Inl (e, s1) \<Rightarrow> Some (Raised e s1) | Inr s1 \<Rightarrow> f G C s1
              else Some (Finished s)) = Some r"
  show "\<exists>n. iterate G C n s = r \<and> (\<forall>a. r \<noteq> Running a)"
  proof (cases "t s < tmax G")
    case False
    with eq have "iterate G C (Suc 0) s = r \<and> (\<forall>a. r \<noteq> Running a)" by auto
    then show ?thesis by blast
  next
    case True
    show ?thesis
    proof (cases "body G C s")
      case (Inl x)
      with True eq have "iterate G C (Suc 0) s = r \<and> (\<forall>a. r \<noteq> Running a)"
        by (auto split: prod.splits)
      then show ?thesis by blast
    next
      case (Inr s1)
      with True eq have "f G C s1 = Some r" by simp
      from IH [OF this] obtain n where "iterate G C n s1 = r" "\<forall>a. r \<noteq> Running a" by blast
      with True Inr have "iterate G C (Suc n) s = r \<and> (\<forall>a. r \<noteq> Running a)" by simp
      then show ?thesis by blast
    qed
  qed
qed

lemma iterate_finished: "iterate G C n s = Finished s1 \<Longrightarrow> tmax G \<le> t s1"
  by (induction n arbitrary: s) (auto split: sum.splits prod.splits if_splits)

lemma iterate_raised:
  "iterate G C n s = Raised e s1 \<Longrightarrow>
     \<exists>k a. iterate G C k s = Running a \<and> t a < tmax G \<and> body G C a = Inl (e, s1)"
proof (induction n arbitrary: s)
  case 0
  then show ?case by simp
next
  case (Suc n)
  show ?case
  proof (cases "body G C s")
    case (Inl x)
    with Suc.prems have "iterate G C 0 s = Running s \<and> t s < tmax G \<and> body G C s = Inl (e, s1)"
      by (auto split: if_splits prod.splits)
    then show ?thesis by blast
  next
    case (Inr s2)
    with Suc.prems have lt: "t s < tmax G" and "iterate G C n s2 = Raised e s1"
      by (auto split: if_splits)
    from Suc.IH [OF this(2)] obtain k a where
      "iterate G C k s2 = Running a" "t a < tmax G" "body G C a = Inl (e, s1)" by blast
    with lt Inr have "iterate G C (Suc k) s = Running a \<and> t a < tmax G \<and> body G C a = Inl (e, s1)"
      by simp
    then show ?thesis by blast
  qed
qed

subsection \<open>Time\<close>

lemma tmax_notebook: "tmax notebook = 2"
  by (simp add: notebook_def)

lemma body_uniform:
  "body G (uniform_stepper d) s =
     Inr (s\<lparr>t := t s + d, dt := d,
            data := \<lparr>parameters = parameters (data s) @ [psi s],
                     observables = observables (data s) @ [[t s + d, 1, 1]],
                     residuals = residuals (data s) @ [[t s + d - d, 0, 0]]\<rparr>\<rparr>)"
  by (simp add: body_def tdvp_step_def uniform_stepper_def Let_def append_observables_def
      append_parameters_def append_residuals_def)

text \<open>
  Claim C2. An accepted pass through the loop body leaves the time at the time before the
  pass plus the step size \<open>dt\<close> that the stepper returned; so when every step size the
  stepper returns is non-negative, the time never decreases from one test of the loop
  condition to a later one.
\<close>

theorem time_advances_by_accepted_dt:
  "(body G C s = Inr s1 \<longrightarrow>
      (\<exists>dp d w1. tdvp_step G C s = Inr ((dp, d), w1) \<and> dt s1 = d \<and> t s1 = t s + d))
   \<and> (accepted_steps_at_least 0 C \<longrightarrow> m \<le> n \<longrightarrow> iterate G C m s = Running a \<longrightarrow>
        t s \<le> t a \<and> t a \<le> t (state_of (iterate G C n s)))"
proof (intro conjI impI)
  assume "body G C s = Inr s1"
  then show "\<exists>dp d w1. tdvp_step G C s = Inr ((dp, d), w1) \<and> dt s1 = d \<and> t s1 = t s + d"
    by (rule body_accepted) blast
next
  assume acc: "accepted_steps_at_least 0 C" and run: "iterate G C m s = Running a"
  from iterate_time_mono [OF acc, of s G m] run show "t s \<le> t a" by simp
  assume "m \<le> n"
  then have "iterate G C n s = iterate G C (n - m) a"
    using iterate_add [of G C m "n - m" s] run by simp
  then show "t a \<le> t (state_of (iterate G C n s))"
    using iterate_time_mono [OF acc, of a G "n - m"] by simp
qed

text \<open>
  The run of the notebook on the stepper that always accepts \<open>dt = 1/2\<close>: the first pass
  moves the time from 0 to \<open>1/2\<close>.
\<close>

theorem time_advances_by_accepted_dt_witness:
  "body notebook (uniform_stepper (1 / 2)) example_start
     = Inr (state_of (iterate notebook (uniform_stepper (1 / 2)) (Suc 0) example_start))
   \<and> accepted_steps_at_least 0 (uniform_stepper (1 / 2))
   \<and> iterate notebook (uniform_stepper (1 / 2)) (Suc 0) example_start
       = Running (state_of (iterate notebook (uniform_stepper (1 / 2)) (Suc 0) example_start))
   \<and> t (state_of (iterate notebook (uniform_stepper (1 / 2)) (Suc 0) example_start)) = 0 + 1 / 2
   \<and> t (state_of (iterate notebook (uniform_stepper (1 / 2)) (Suc 0) example_start))
       \<le> t (state_of (iterate notebook (uniform_stepper (1 / 2)) (Suc (Suc 0)) example_start))"
proof -
  let ?C = "uniform_stepper (1 / 2)"
  let ?s1 = "state_of (iterate notebook ?C (Suc 0) example_start)"
  have b: "body notebook ?C example_start = Inr ?s1"
    by (simp add: body_uniform example_start_def tmax_notebook)
  have acc: "accepted_steps_at_least 0 ?C"
    by (simp add: accepted_steps_at_least_def uniform_stepper_def)
  have run: "iterate notebook ?C (Suc 0) example_start = Running ?s1"
    by (simp add: body_uniform example_start_def tmax_notebook)
  have t0: "t example_start = 0" by (simp add: example_start_def)
  from time_advances_by_accepted_dt
    [of notebook ?C example_start ?s1 "Suc 0" "Suc (Suc 0)" ?s1]
  have "(\<exists>dp d w1. tdvp_step notebook ?C example_start = Inr ((dp, d), w1)
            \<and> dt ?s1 = d \<and> t ?s1 = t example_start + d)
        \<and> t ?s1 \<le> t (state_of (iterate notebook ?C (Suc (Suc 0)) example_start))"
    using b acc run by simp
  then have "t ?s1 = 0 + 1 / 2
        \<and> t ?s1 \<le> t (state_of (iterate notebook ?C (Suc (Suc 0)) example_start))"
    by (auto simp: tdvp_step_def uniform_stepper_def t0)
  with b acc run show ?thesis by blast
qed

subsection \<open>Termination\<close>

lemma iterate_finished_reached:
  "iterate G C n s = Finished s1 \<Longrightarrow> \<not> t s1 < tmax G \<and> (\<exists>k. iterate G C k s = Running s1)"
proof (induction n arbitrary: s)
  case 0
  then show ?case by simp
next
  case (Suc n)
  show ?case
  proof (cases "t s < tmax G")
    case False
    with Suc.prems have "s1 = s" by simp
    with False have "\<not> t s1 < tmax G \<and> iterate G C 0 s = Running s1" by simp
    then show ?thesis by blast
  next
    case True
    with Suc.prems obtain s2 where b: "body G C s = Inr s2" and r: "iterate G C n s2 = Finished s1"
      by (auto split: sum.splits prod.splits)
    from Suc.IH [OF r] obtain k where "\<not> t s1 < tmax G" "iterate G C k s2 = Running s1" by blast
    with True b have "\<not> t s1 < tmax G \<and> iterate G C (Suc k) s = Running s1" by simp
    then show ?thesis by blast
  qed
qed

lemma passes_advance_step:
  assumes "passes_advance_by \<delta> G C s" "t s < tmax G" "body G C s = Inr s1"
  shows "t s + \<delta> \<le> t s1 \<and> passes_advance_by \<delta> G C s1"
proof
  have "iterate G C 0 s = Running s" by simp
  with assms show "t s + \<delta> \<le> t s1"
    unfolding passes_advance_by_def by blast
next
  show "passes_advance_by \<delta> G C s1"
    unfolding passes_advance_by_def
  proof (intro allI impI)
    fix k a s2
    assume "iterate G C k s1 = Running a" "t a < tmax G" "body G C a = Inr s2"
    moreover from this(1) assms(2,3) have "iterate G C (Suc k) s = Running a" by simp
    ultimately show "t a + \<delta> \<le> t s2"
      using assms(1) unfolding passes_advance_by_def by blast
  qed
qed

lemma iterate_terminates:
  assumes "0 < \<delta>"
  shows "passes_advance_by \<delta> G C s \<Longrightarrow> tmax G - t s \<le> real k * \<delta>
           \<Longrightarrow> \<forall>a. iterate G C (Suc k) s \<noteq> Running a"
proof (induction k arbitrary: s)
  case 0
  then show ?case by simp
next
  case (Suc k)
  show ?case
  proof (cases "t s < tmax G")
    case False
    then show ?thesis by simp
  next
    case True
    show ?thesis
    proof (cases "body G C s")
      case (Inl x)
      with True show ?thesis by (simp split: prod.splits)
    next
      case (Inr s1)
      from passes_advance_step [OF Suc.prems(1) True Inr]
      have adv: "t s + \<delta> \<le> t s1" and p: "passes_advance_by \<delta> G C s1" by simp_all
      from adv Suc.prems(2) have "tmax G - t s1 \<le> real k * \<delta>" by (simp add: algebra_simps)
      from Suc.IH [OF p this] True Inr show ?thesis by simp
    qed
  qed
qed

lemma body_halving:
  "body G halving_stepper s =
     Inr (s\<lparr>t := t s + world s, dt := world s, world := world s / 2,
            data := \<lparr>parameters = parameters (data s) @ [psi s],
                     observables = observables (data s) @ [[t s + world s, 1, 1]],
                     residuals = residuals (data s) @ [[t s + world s - world s, 0, 0]]\<rparr>\<rparr>)"
  by (simp add: body_def tdvp_step_def halving_stepper_def Let_def append_observables_def
      append_parameters_def append_residuals_def)

lemma halving_never_returns:
  assumes "while_loop G halving_stepper s = Some r"
  shows "\<not> (0 < world s \<and> t s + 2 * world s \<le> tmax G)"
proof -
  have "halving_stepper = halving_stepper \<longrightarrow> \<not> (0 < world s \<and> t s + 2 * world s \<le> tmax G)"
  proof (rule while_loop.raw_induct
    [where P = "\<lambda>G C s r. C = halving_stepper \<longrightarrow> \<not> (0 < world s \<and> t s + 2 * world s \<le> tmax G)"
       and C = halving_stepper, OF _ assms])
    fix f :: "globals \<Rightarrow> (real, unit) collaborators \<Rightarrow> (real, unit, 'c) driver_state
                \<Rightarrow> (real, unit, 'c) outcome option"
      and G C s r
    assume IH: "\<And>G C s r. f G C s = Some r \<Longrightarrow>
                   C = halving_stepper \<longrightarrow> \<not> (0 < world s \<and> t s + 2 * world s \<le> tmax G)"
      and eq: "(if t s < tmax G
                then case body G C s of Inl (e, s1) \<Rightarrow> Some (Raised e s1) | Inr s1 \<Rightarrow> f G C s1
                else Some (Finished s)) = Some r"
    show "C = halving_stepper \<longrightarrow> \<not> (0 < world s \<and> t s + 2 * world s \<le> tmax G)"
    proof (intro impI notI)
      assume C: "C = halving_stepper" and inv: "0 < world s \<and> t s + 2 * world s \<le> tmax G"
      then have "t s < tmax G" by simp
      with eq C have "f G halving_stepper
          (s\<lparr>t := t s + world s, dt := world s, world := world s / 2,
              data := \<lparr>parameters = parameters (data s) @ [psi s],
                       observables = observables (data s) @ [[t s + world s, 1, 1]],
                       residuals = residuals (data s) @ [[t s + world s - world s, 0, 0]]\<rparr>\<rparr>)
            = Some r"
        by (simp add: body_halving)
      from IH [OF this] inv show False by simp
    qed
  qed
  then show ?thesis by simp
qed

lemma snapshot_initialise:
  "initialise notebook failing_snapshot identity_pickle () 0 Map.empty = Inr snapshot_start"
  by (simp add: initialise_def Let_def failing_snapshot_def identity_pickle_def stepper_def
      save_to_disk_def snapshot_start_def fn_prefix_def notebook_def str_nat.simps
      append_observables_def append_parameters_def)

lemma snapshot_body:
  "body notebook failing_snapshot snapshot_start
     = Inl (CollaboratorError ''unfreeze'', snapshot_raised)"
  by (simp add: body_def tdvp_step_def failing_snapshot_def Let_def append_observables_def
      append_parameters_def snapshot_start_def snapshot_raised_def)

lemma snapshot_loop:
  "while_loop notebook failing_snapshot snapshot_start
     = Some (Raised (CollaboratorError ''unfreeze'') snapshot_raised)"
  by (subst while_loop.simps) (simp add: snapshot_body, simp add: snapshot_start_def tmax_notebook)

text \<open>
  Claim C3, as stated: for every \<open>t\<^sub>m\<^sub>a\<^sub>x > 0\<close> and every first step size \<open>dt\<^sub>0 > 0\<close> the loop ends
  after finitely many steps, and nothing but \<open>t \<ge> t\<^sub>m\<^sub>a\<^sub>x\<close> or a signal of the integrator ends
  it. With the notebook's \<open>t\<^sub>m\<^sub>a\<^sub>x = 2\<close> and \<open>dt\<^sub>0 = 10\<^sup>-\<^sup>3\<close> and a stepper that accepts every step,
  never raises and halves its step size after each step, the time stays below
  \<open>2 \<cdot> 10\<^sup>-\<^sup>3\<close> and the cell never returns. With a library whose \<^verbatim>\<open>unfreeze\<close> raises in the
  first pass, the loop ends at \<open>t = 1/2\<close> although the stepper returned normally.
\<close>

theorem loop_may_run_forever_or_end_early_counterexample:
  "0 < tmax notebook \<and> 0 < dt0 notebook
   \<and> driver notebook halving_stepper identity_pickle 0 () Map.empty = None
   \<and> tdvp_step notebook failing_snapshot snapshot_start = Inr ((1, 1 / 2), ())
   \<and> driver notebook failing_snapshot identity_pickle () 0 Map.empty
       = Some (Inr (Raised (CollaboratorError ''unfreeze'') snapshot_raised))
   \<and> t snapshot_raised < tmax notebook"
proof -
  let ?s0 = "\<lparr>t = 0, dt = dt0 notebook, psi = (), world = dt0 notebook,
              data = \<lparr>parameters = [()], observables = [[0, 1, 1]], residuals = []\<rparr>,
              disk = [''ffn_width=60_L=8_g=0.3_h=0.25.pkl''
                        \<mapsto> [\<lparr>parameters = [()], observables = [[0, 1, 1]], residuals = []\<rparr>]]\<rparr>
            :: (real, unit, unit series) driver_state"
  have init: "initialise notebook halving_stepper identity_pickle 0 () Map.empty = Inr ?s0"
    by (simp add: initialise_def Let_def halving_stepper_def identity_pickle_def stepper_def
        save_to_disk_def fn_prefix_def notebook_def str_nat.simps append_observables_def
        append_parameters_def)
  have "0 < world ?s0 \<and> t ?s0 + 2 * world ?s0 \<le> tmax notebook"
    by (simp add: notebook_def)
  with halving_never_returns [of notebook ?s0]
  have "while_loop notebook halving_stepper ?s0 = None"
    by (cases "while_loop notebook halving_stepper ?s0") auto
  with init have forever: "driver notebook halving_stepper identity_pickle 0 () Map.empty = None"
    by (simp add: driver_def)
  have stepped: "tdvp_step notebook failing_snapshot snapshot_start = Inr ((1, 1 / 2), ())"
    by (simp add: tdvp_step_def failing_snapshot_def snapshot_start_def)
  have early: "driver notebook failing_snapshot identity_pickle () 0 Map.empty
       = Some (Inr (Raised (CollaboratorError ''unfreeze'') snapshot_raised))"
    by (simp add: driver_def snapshot_initialise snapshot_loop)
  have "t snapshot_raised < tmax notebook"
    by (simp add: snapshot_raised_def snapshot_start_def tmax_notebook)
  with forever stepped early show ?thesis
    by (simp add: notebook_def)
qed

text \<open>
  Claim C3, amended. The loop runs exactly while \<open>t < t\<^sub>m\<^sub>a\<^sub>x\<close>: when it returns, it either
  ended by its condition, in the first state in which \<open>t < t\<^sub>m\<^sub>a\<^sub>x\<close> is false, or a call of
  the pass (the stepper, \<^verbatim>\<open>set_parameters\<close>, \<^verbatim>\<open>get_residuals\<close>, \<^verbatim>\<open>measure\<close> or \<^verbatim>\<open>unfreeze\<close>)
  raised in a pass that was entered with \<open>t < t\<^sub>m\<^sub>a\<^sub>x\<close>; nothing else ends it. If every
  completed pass leaves the stored time at least some \<open>\<delta> > 0\<close> above the time with which
  it began, the loop returns, after at most \<open>\<lceil>(t\<^sub>m\<^sub>a\<^sub>x - t) / \<delta>\<rceil>\<close> passes and one more test of
  its condition.
\<close>

theorem driver_loop_exits_and_terminates:
  "(while_loop G C s = Some r \<longrightarrow>
      (case r of
         Finished s1 \<Rightarrow> \<not> t s1 < tmax G \<and> (\<exists>k. iterate G C k s = Running s1)
       | Raised e s1 \<Rightarrow> (\<exists>k a. iterate G C k s = Running a \<and> t a < tmax G
                             \<and> body G C a = Inl (e, s1))
       | Running s1 \<Rightarrow> False))
   \<and> (0 < \<delta> \<and> passes_advance_by \<delta> G C s \<longrightarrow>
        (\<exists>n r. n \<le> nat \<lceil>(tmax G - t s) / \<delta>\<rceil> + 1 \<and> iterate G C n s = r
               \<and> while_loop G C s = Some r))"
proof (intro conjI impI)
  assume "while_loop G C s = Some r"
  from while_loop_complete [OF this] obtain n where
    n: "iterate G C n s = r" and nr: "\<forall>a. r \<noteq> Running a" by blast
  show "case r of
         Finished s1 \<Rightarrow> \<not> t s1 < tmax G \<and> (\<exists>k. iterate G C k s = Running s1)
       | Raised e s1 \<Rightarrow> (\<exists>k a. iterate G C k s = Running a \<and> t a < tmax G
                             \<and> body G C a = Inl (e, s1))
       | Running s1 \<Rightarrow> False"
  proof (cases r)
    case (Running a)
    with nr show ?thesis by simp
  next
    case (Finished s1)
    with n iterate_finished_reached [of G C n s s1] show ?thesis by simp
  next
    case (Raised e s1)
    with n iterate_raised [of G C n s e s1] show ?thesis by simp
  qed
next
  assume a: "0 < \<delta> \<and> passes_advance_by \<delta> G C s"
  let ?k = "nat \<lceil>(tmax G - t s) / \<delta>\<rceil>"
  have "(tmax G - t s) / \<delta> \<le> real ?k"
    by linarith
  with a have "tmax G - t s \<le> real ?k * \<delta>"
    by (simp add: pos_divide_le_eq)
  with a iterate_terminates [of \<delta> G C s ?k]
  have nr: "\<forall>a. iterate G C (Suc ?k) s \<noteq> Running a" by blast
  then have "while_loop G C s = Some (iterate G C (Suc ?k) s)"
    by (rule iterate_sound [OF refl])
  then show "\<exists>n r. n \<le> ?k + 1 \<and> iterate G C n s = r \<and> while_loop G C s = Some r"
    by (intro exI [of _ "Suc ?k"] exI [of _ "iterate G C (Suc ?k) s"] conjI)
       (simp_all del: iterate.simps)
qed

lemma iterate_uniform_5:
  "iterate notebook (uniform_stepper (1 / 2)) (Suc (Suc (Suc (Suc (Suc 0))))) example_start =
     Finished (example_start\<lparr>t := 2, dt := 1 / 2,
        data := \<lparr>parameters = [(), (), (), (), ()],
                 observables = [[0, 1, 1], [1 / 2, 1, 1], [1, 1, 1], [3 / 2, 1, 1], [2, 1, 1]],
                 residuals = [[0, 0, 0], [1 / 2, 0, 0], [1, 0, 0], [3 / 2, 0, 0]]\<rparr>\<rparr>)"
  by (simp add: body_uniform example_start_def first_series_def tmax_notebook)

lemma uniform_passes_advance:
  "passes_advance_by d G (uniform_stepper d) s"
  by (simp add: passes_advance_by_def body_uniform)

text \<open>
  With \<open>dt = 1/2\<close> in every step the notebook's loop ends by its condition after four
  passes, at \<open>t = 2\<close>; with the library whose \<^verbatim>\<open>unfreeze\<close> raises, it ends in the first pass.
\<close>

theorem driver_loop_exits_and_terminates_witness:
  "(0::real) < 1 / 2 \<and> passes_advance_by (1 / 2) notebook (uniform_stepper (1 / 2)) example_start
   \<and> while_loop notebook (uniform_stepper (1 / 2)) example_start
       = Some (iterate notebook (uniform_stepper (1 / 2)) (Suc (Suc (Suc (Suc (Suc 0))))) example_start)
   \<and> \<not> t (state_of
         (iterate notebook (uniform_stepper (1 / 2)) (Suc (Suc (Suc (Suc (Suc 0))))) example_start))
        < tmax notebook
   \<and> (\<exists>n r. n \<le> 5 \<and> iterate notebook (uniform_stepper (1 / 2)) n example_start = r
          \<and> while_loop notebook (uniform_stepper (1 / 2)) example_start = Some r)
   \<and> while_loop notebook failing_snapshot snapshot_start
       = Some (Raised (CollaboratorError ''unfreeze'') snapshot_raised)
   \<and> (\<exists>k a. iterate notebook failing_snapshot k snapshot_start = Running a
          \<and> t a < tmax notebook
          \<and> body notebook failing_snapshot a
              = Inl (CollaboratorError ''unfreeze'', snapshot_raised))"
proof -
  let ?C = "uniform_stepper (1 / 2)"
  let ?r = "iterate notebook ?C (Suc (Suc (Suc (Suc (Suc 0))))) example_start"
  have adv: "passes_advance_by (1 / 2) notebook ?C example_start"
    by (rule uniform_passes_advance)
  have w: "while_loop notebook ?C example_start = Some ?r"
    by (rule iterate_sound [OF refl]) (simp only: iterate_uniform_5, simp)
  have k: "nat \<lceil>(tmax notebook - t example_start) / (1 / 2)\<rceil> + 1 = 5"
    by (simp add: tmax_notebook example_start_def)
  from driver_loop_exits_and_terminates [of notebook ?C example_start ?r "1 / 2"] w adv
  have "(case ?r of Finished s1 \<Rightarrow> \<not> t s1 < tmax notebook
              \<and> (\<exists>k. iterate notebook ?C k example_start = Running s1)
          | Raised e s1 \<Rightarrow> (\<exists>k a. iterate notebook ?C k example_start = Running a
                \<and> t a < tmax notebook \<and> body notebook ?C a = Inl (e, s1))
          | Running s1 \<Rightarrow> False)
        \<and> (\<exists>n r. n \<le> nat \<lceil>(tmax notebook - t example_start) / (1 / 2)\<rceil> + 1
              \<and> iterate notebook ?C n example_start = r
              \<and> while_loop notebook ?C example_start = Some r)"
    by simp
  then have fin: "\<not> t (state_of ?r) < tmax notebook
        \<and> (\<exists>n r. n \<le> 5 \<and> iterate notebook ?C n example_start = r
              \<and> while_loop notebook ?C example_start = Some r)"
    unfolding k iterate_uniform_5 by simp
  from driver_loop_exits_and_terminates
    [of notebook failing_snapshot snapshot_start
        "Raised (CollaboratorError ''unfreeze'') snapshot_raised"] snapshot_loop
  have early: "\<exists>k a. iterate notebook failing_snapshot k snapshot_start = Running a
          \<and> t a < tmax notebook
          \<and> body notebook failing_snapshot a
              = Inl (CollaboratorError ''unfreeze'', snapshot_raised)"
    by simp
  from adv w fin snapshot_loop early show ?thesis by simp
qed

subsection \<open>The recorded series\<close>

lemma initialise_eq:
  "initialise G C P w0 p0 fs0 =
     (case measure_obs C (stepper G C w0) (observables_dict G) p0 (ExactSampler (L G)) of
        Inl e \<Rightarrow> Inl e
      | Inr (obs, w2) \<Rightarrow>
          (case unfreeze C p0 of
             Inl e \<Rightarrow> Inl e
           | Inr snapshot \<Rightarrow>
               (case save_to_disk P G
                       \<lparr>parameters = [snapshot], observables = [[0, obs ''energy'', obs ''X'']],
                        residuals = []\<rparr> (fn_prefix G) fs0 of
                  (Inl e, fs1) \<Rightarrow> Inl e
                | (Inr u, fs1) \<Rightarrow>
                    Inr \<lparr>t = 0, dt = dt0 G, psi = p0, world = w2,
                         data = \<lparr>parameters = [snapshot],
                                 observables = [[0, obs ''energy'', obs ''X'']],
                                 residuals = []\<rparr>,
                         disk = fs1\<rparr>)))"
  by (simp add: initialise_def Let_def append_observables_def append_parameters_def
        split: sum.splits prod.splits)

lemma initialise_series:
  assumes "initialise G C P w0 p0 fs0 = Inr s0"
  shows "\<exists>obs w2 snapshot.
           measure_obs C (stepper G C w0) (observables_dict G) p0 (ExactSampler (L G))
             = Inr (obs, w2)
         \<and> unfreeze C p0 = Inr snapshot
         \<and> data s0 = \<lparr>parameters = [snapshot], observables = [[0, obs ''energy'', obs ''X'']],
                        residuals = []\<rparr>
         \<and> t s0 = 0 \<and> dt s0 = dt0 G \<and> psi s0 = p0 \<and> world s0 = w2
         \<and> save_to_disk P G (data s0) (fn_prefix G) fs0 = (Inr (), disk s0)"
  using assms unfolding initialise_eq
  by (auto split: sum.splits prod.splits)

lemma iterate_disk: "disk (state_of (iterate G C n s)) = disk s"
proof (induction n arbitrary: s)
  case 0
  show ?case by simp
next
  case (Suc n)
  show ?case
  proof (cases "body G C s")
    case (Inl x)
    obtain e s1 where x: "x = (e, s1)" by (cases x)
    with Inl body_raised [of G C s e s1] show ?thesis by simp
  next
    case (Inr s1)
    then have "disk s1 = disk s" by (rule body_accepted)
    with Inr Suc.IH [of s1] show ?thesis by simp
  qed
qed

lemma driver_of_loop:
  assumes "initialise G C P w0 p0 fs0 = Inr s0" "while_loop G C s0 = Some r"
  shows "driver G C P w0 p0 fs0 =
           Some (Inr (case r of
                        Finished s1 \<Rightarrow>
                          (case save_to_disk P G (data s1) (fn_prefix G) (disk s1) of
                             (Inl e, fs1) \<Rightarrow> Raised e (s1\<lparr>disk := fs1\<rparr>)
                           | (Inr u, fs1) \<Rightarrow> Finished (s1\<lparr>disk := fs1\<rparr>))
                      | Running s1 \<Rightarrow> Running s1
                      | Raised e s1 \<Rightarrow> Raised e s1))"
  using assms
  by (auto simp: driver_def split: sum.splits option.splits outcome.splits prod.splits)







lemma initialise_example:
  "initialise notebook (uniform_stepper (1 / 2)) identity_pickle () () Map.empty
     = Inr example_start"
  by (simp add: initialise_eq uniform_stepper_def identity_pickle_def stepper_def
      save_to_disk_def example_start_def first_series_def fn_prefix_def notebook_def
      str_nat.simps)

lemma fn_prefix_notebook: "fn_prefix notebook = ''ffn_width=60_''"
  by (simp add: fn_prefix_def notebook_def str_nat.simps)

lemma load_example_disk:
  "load_from_disk identity_pickle notebook (fn_prefix notebook) (disk example_start)
     = Inr first_series"
  by (simp add: load_from_disk_def identity_pickle_def example_start_def fn_prefix_def
      notebook_def str_nat.simps)

lemma uniform_loop:
  "while_loop notebook (uniform_stepper (1 / 2)) example_start = Some (Finished example_end)"
proof -
  have "iterate notebook (uniform_stepper (1 / 2)) (Suc (Suc (Suc (Suc (Suc 0))))) example_start
          = Finished example_end"
    unfolding iterate_uniform_5 by (simp add: example_end_def final_series_def)
  then show ?thesis
    by (rule iterate_sound) simp
qed

lemma save_example_end:
  "save_to_disk identity_pickle notebook (data example_end) (fn_prefix notebook)
       (disk example_start)
     = (Inr (), [''ffn_width=60_L=8_g=0.3_h=0.25.pkl'' \<mapsto> [final_series]])"
  by (simp add: save_to_disk_def identity_pickle_def example_end_def example_start_def
      fn_prefix_def notebook_def str_nat.simps)


text \<open>
  Claim C4, as stated: every accepted step hands its record to \<^verbatim>\<open>save_to_disk\<close>. After the
  first accepted pass of the run on the uniform stepper, the file still holds the series
  that was saved before the loop, which is not the series in memory.
\<close>

theorem step_record_not_saved_counterexample:
  "initialise notebook (uniform_stepper (1 / 2)) identity_pickle () () Map.empty
     = Inr example_start
   \<and> body notebook (uniform_stepper (1 / 2)) example_start
       = Inr (state_of (iterate notebook (uniform_stepper (1 / 2)) (Suc 0) example_start))
   \<and> load_from_disk identity_pickle notebook (fn_prefix notebook)
        (disk (state_of (iterate notebook (uniform_stepper (1 / 2)) (Suc 0) example_start)))
       = Inr first_series
   \<and> data (state_of (iterate notebook (uniform_stepper (1 / 2)) (Suc 0) example_start))
       \<noteq> first_series"
proof -
  let ?C = "uniform_stepper (1 / 2)"
  have b: "body notebook ?C example_start
             = Inr (state_of (iterate notebook ?C (Suc 0) example_start))"
    by (simp add: body_uniform example_start_def tmax_notebook)
  have l: "load_from_disk identity_pickle notebook (fn_prefix notebook)
             (disk (state_of (iterate notebook ?C (Suc 0) example_start))) = Inr first_series"
    by (simp only: iterate_disk load_example_disk)
  have d: "data (state_of (iterate notebook ?C (Suc 0) example_start)) \<noteq> first_series"
    by (simp add: body_uniform example_start_def first_series_def tmax_notebook)
  from initialise_example b l d show ?thesis by blast
qed

text \<open>
  Claim C4, amended. An accepted pass appends one entry to each of the three lists of
  \<^verbatim>\<open>data\<close>: \<^verbatim>\<open>[t, energy, X]\<close> with the means measured after the step to the observables,
  the snapshot of the new parameters to the parameters, and \<^verbatim>\<open>[t - dt, tdvpErr, linEqRes]\<close>
  to the residuals; it does not touch the disk. The series is handed to \<^verbatim>\<open>save_to_disk\<close>
  once before the loop, when it holds the initial entry only, and once after the loop has
  ended by its condition, when it holds the whole series; when the loop is left by an
  exception, the series is not saved again.
\<close>

theorem series_appended_and_saved_outside_loop:
  "(body G C s = Inr s1 \<longrightarrow>
      (\<exists>dp d w1 p1 e r obs w2 snapshot.
          tdvp_step G C s = Inr ((dp, d), w1)
        \<and> set_parameters C (psi s) dp = Inr p1
        \<and> get_residuals C w1 = Inr (e, r)
        \<and> measure_obs C w1 (observables_dict G) p1 (ExactSampler (L G)) = Inr (obs, w2)
        \<and> unfreeze C p1 = Inr snapshot
        \<and> observables (data s1) = observables (data s) @ [[t s1, obs ''energy'', obs ''X'']]
        \<and> parameters (data s1) = parameters (data s) @ [snapshot]
        \<and> residuals (data s1) = residuals (data s) @ [[t s1 - dt s1, e, r]]
        \<and> psi s1 = p1 \<and> dt s1 = d \<and> disk s1 = disk s))
   \<and> (initialise G C P w0 p0 fs0 = Inr s0 \<longrightarrow>
        save_to_disk P G (data s0) (fn_prefix G) fs0 = (Inr (), disk s0)
      \<and> length (observables (data s0)) = 1 \<and> length (parameters (data s0)) = 1
      \<and> residuals (data s0) = []
      \<and> disk (state_of (iterate G C n s0)) = disk s0
      \<and> (while_loop G C s0 = Some (Finished s2) \<longrightarrow>
           driver G C P w0 p0 fs0 =
             Some (Inr (case save_to_disk P G (data s2) (fn_prefix G) (disk s0) of
                          (Inl e, fs1) \<Rightarrow> Raised e (s2\<lparr>disk := fs1\<rparr>)
                        | (Inr u, fs1) \<Rightarrow> Finished (s2\<lparr>disk := fs1\<rparr>))))
      \<and> (while_loop G C s0 = Some (Raised e1 s3) \<longrightarrow>
           driver G C P w0 p0 fs0 = Some (Inr (Raised e1 s3)) \<and> disk s3 = disk s0))"
proof (intro conjI impI)
  assume "body G C s = Inr s1"
  then show "\<exists>dp d w1 p1 e r obs w2 snapshot.
          tdvp_step G C s = Inr ((dp, d), w1)
        \<and> set_parameters C (psi s) dp = Inr p1
        \<and> get_residuals C w1 = Inr (e, r)
        \<and> measure_obs C w1 (observables_dict G) p1 (ExactSampler (L G)) = Inr (obs, w2)
        \<and> unfreeze C p1 = Inr snapshot
        \<and> observables (data s1) = observables (data s) @ [[t s1, obs ''energy'', obs ''X'']]
        \<and> parameters (data s1) = parameters (data s) @ [snapshot]
        \<and> residuals (data s1) = residuals (data s) @ [[t s1 - dt s1, e, r]]
        \<and> psi s1 = p1 \<and> dt s1 = d \<and> disk s1 = disk s"
    by (rule body_accepted) blast
next
  assume i: "initialise G C P w0 p0 fs0 = Inr s0"
  from initialise_series [OF i] obtain obs snapshot where
    d0: "data s0 = \<lparr>parameters = [snapshot], observables = [[0, obs ''energy'', obs ''X'']],
                     residuals = []\<rparr>"
    and sv: "save_to_disk P G (data s0) (fn_prefix G) fs0 = (Inr (), disk s0)"
    by blast
  show "save_to_disk P G (data s0) (fn_prefix G) fs0 = (Inr (), disk s0)" by (rule sv)
  show "length (observables (data s0)) = 1" "length (parameters (data s0)) = 1"
    "residuals (data s0) = []"
    using d0 by simp_all
  show "disk (state_of (iterate G C n s0)) = disk s0" by (rule iterate_disk)
  {
    assume w: "while_loop G C s0 = Some (Finished s2)"
    from while_loop_complete [OF w] obtain k where "iterate G C k s0 = Finished s2" by blast
    with iterate_disk [of G C k s0] have "disk s2 = disk s0" by simp
    with driver_of_loop [OF i w]
    show "driver G C P w0 p0 fs0 =
             Some (Inr (case save_to_disk P G (data s2) (fn_prefix G) (disk s0) of
                          (Inl e, fs1) \<Rightarrow> Raised e (s2\<lparr>disk := fs1\<rparr>)
                        | (Inr u, fs1) \<Rightarrow> Finished (s2\<lparr>disk := fs1\<rparr>)))"
      by simp
  }
  {
    assume w: "while_loop G C s0 = Some (Raised e1 s3)"
    from driver_of_loop [OF i w]
    show "driver G C P w0 p0 fs0 = Some (Inr (Raised e1 s3))" by simp
    from while_loop_complete [OF w] obtain k where "iterate G C k s0 = Raised e1 s3" by blast
    with iterate_disk [of G C k s0] show "disk s3 = disk s0" by simp
  }
qed

text \<open>
  The run on the uniform stepper: the first pass, the save before the loop, and the save
  after the loop, which leaves the whole series in the file. The run on the library whose
  \<^verbatim>\<open>unfreeze\<close> raises: the cell is left in the first pass and the file keeps the initial
  series.
\<close>

theorem series_appended_and_saved_outside_loop_witness:
  "body notebook (uniform_stepper (1 / 2)) example_start
     = Inr (state_of (iterate notebook (uniform_stepper (1 / 2)) (Suc 0) example_start))
   \<and> observables (data (state_of
         (iterate notebook (uniform_stepper (1 / 2)) (Suc 0) example_start)))
       = [[0, 1, 1], [1 / 2, 1, 1]]
   \<and> residuals (data (state_of
         (iterate notebook (uniform_stepper (1 / 2)) (Suc 0) example_start)))
       = [[0, 0, 0]]
   \<and> initialise notebook (uniform_stepper (1 / 2)) identity_pickle () () Map.empty
       = Inr example_start
   \<and> save_to_disk identity_pickle notebook (data example_start) (fn_prefix notebook) Map.empty
       = (Inr (), disk example_start)
   \<and> while_loop notebook (uniform_stepper (1 / 2)) example_start = Some (Finished example_end)
   \<and> driver notebook (uniform_stepper (1 / 2)) identity_pickle () () Map.empty
       = Some (Inr (Finished
           (example_end\<lparr>disk := [''ffn_width=60_L=8_g=0.3_h=0.25.pkl'' \<mapsto> [final_series]]\<rparr>)))
   \<and> initialise notebook failing_snapshot identity_pickle () 0 Map.empty = Inr snapshot_start
   \<and> while_loop notebook failing_snapshot snapshot_start
       = Some (Raised (CollaboratorError ''unfreeze'') snapshot_raised)
   \<and> driver notebook failing_snapshot identity_pickle () 0 Map.empty
       = Some (Inr (Raised (CollaboratorError ''unfreeze'') snapshot_raised))
   \<and> disk snapshot_raised = disk snapshot_start"
proof -
  let ?C = "uniform_stepper (1 / 2)"
  let ?s1 = "state_of (iterate notebook ?C (Suc 0) example_start)"
  have b: "body notebook ?C example_start = Inr ?s1"
    by (simp add: body_uniform example_start_def tmax_notebook)
  from series_appended_and_saved_outside_loop
    [of notebook ?C example_start ?s1 identity_pickle "()" "()" Map.empty example_start
        "Suc 0" example_end]
    b initialise_example uniform_loop
  have u: "(\<exists>dp d w1 p1 e r obs w2 snapshot.
          tdvp_step notebook ?C example_start = Inr ((dp, d), w1)
        \<and> set_parameters ?C (psi example_start) dp = Inr p1
        \<and> get_residuals ?C w1 = Inr (e, r)
        \<and> measure_obs ?C w1 (observables_dict notebook) p1 (ExactSampler (L notebook))
            = Inr (obs, w2)
        \<and> unfreeze ?C p1 = Inr snapshot
        \<and> observables (data ?s1)
            = observables (data example_start) @ [[t ?s1, obs ''energy'', obs ''X'']]
        \<and> parameters (data ?s1) = parameters (data example_start) @ [snapshot]
        \<and> residuals (data ?s1) = residuals (data example_start) @ [[t ?s1 - dt ?s1, e, r]]
        \<and> psi ?s1 = p1 \<and> dt ?s1 = d \<and> disk ?s1 = disk example_start)
      \<and> save_to_disk identity_pickle notebook (data example_start) (fn_prefix notebook) Map.empty
          = (Inr (), disk example_start)
      \<and> driver notebook ?C identity_pickle () () Map.empty =
             Some (Inr (case save_to_disk identity_pickle notebook (data example_end)
                               (fn_prefix notebook) (disk example_start) of
                          (Inl e, fs1) \<Rightarrow> Raised e (example_end\<lparr>disk := fs1\<rparr>)
                        | (Inr u, fs1) \<Rightarrow> Finished (example_end\<lparr>disk := fs1\<rparr>)))"
    by blast
  then have u1: "observables (data ?s1) = [[0, 1, 1], [1 / 2, 1, 1]]
      \<and> residuals (data ?s1) = [[0, 0, 0]]"
    by (simp add: body_uniform example_start_def first_series_def tmax_notebook)
  from u have u2: "driver notebook ?C identity_pickle () () Map.empty
       = Some (Inr (Finished
           (example_end\<lparr>disk := [''ffn_width=60_L=8_g=0.3_h=0.25.pkl'' \<mapsto> [final_series]]\<rparr>)))"
    by (simp add: save_example_end)
  from series_appended_and_saved_outside_loop
    [of notebook failing_snapshot snapshot_start snapshot_start identity_pickle "()" 0 Map.empty
        snapshot_start 0 snapshot_start "CollaboratorError ''unfreeze''" snapshot_raised]
    snapshot_initialise snapshot_loop
  have f: "driver notebook failing_snapshot identity_pickle () 0 Map.empty
       = Some (Inr (Raised (CollaboratorError ''unfreeze'') snapshot_raised))
     \<and> disk snapshot_raised = disk snapshot_start"
    by blast
  from b u u1 u2 f initialise_example uniform_loop snapshot_initialise snapshot_loop
  show ?thesis by blast
qed




section \<open>The run of the notebook\<close>







end
